theory Spec2Isabelle
  imports Main "HOL-Library.Monad_Syntax" "HOL-Library.Sublist"
begin

section \<open>The collector of profiling snapshots (internal/collect/collector.go)\<close>

text \<open>
  The theory follows one goroutine through the methods of \<^verbatim>\<open>Collector\<close>. The
  collaborators whose code is elsewhere (storage, snapshot capture, the cached processor,
  the publisher) are parameters: each call to one of them is written to a trace, in the
  order of the source, and its outcome is read from a record of functions. Every method
  calls each collaborator that returns something at most once, so a function of the
  arguments says all there is to say about one run of a method.

  The reader/writer lock is part of the state. An acquisition that cannot be granted and a
  release of a lock that is not held do not return: the result \<open>None\<close>. Pointers of the
  source (\<^verbatim>\<open>*SnapshotTarget\<close>, \<^verbatim>\<open>*Options\<close>, \<^verbatim>\<open>*Snapshot\<close>) are the records they point to;
  a nil argument, on which the source panics at the first field access, is not an input here.
  The pointers \<^verbatim>\<open>*Entry\<close> are addresses in an explicit store, since the ledger is a map of
  pointers and a claim is about which cells are written.
\<close>

subsection \<open>Data\<close>

text \<open>
  Modelled from the spec: the declaration of \<^verbatim>\<open>SnapshotTarget\<close> is not in the source at
  hand. The source reads its fields \<^verbatim>\<open>URL\<close> (compared with the empty string) and
  \<^verbatim>\<open>Duration\<close> (compared with 0).
\<close>

record SnapshotTarget =
  URL :: string
  Duration :: int

text \<open>
  Modelled from the spec: the declaration of \<^verbatim>\<open>Snapshot\<close> is not in the source at hand.
  The source reads its field \<^verbatim>\<open>ID\<close>; the spec associates a snapshot with a type label and a
  capture target.
\<close>

record Snapshot =
  ID :: string
  Label :: string
  Target :: SnapshotTarget

type_synonym Status = string

definition StatusOk :: Status where
  "StatusOk = ''ok''"

definition StatusFail :: Status where
  "StatusFail = ''fail''"

definition StatusPending :: Status where
  "StatusPending = ''pending''"

record Entry =
  Snapshot :: Snapshot
  Status :: Status
  Message :: string

record Options =
  Type :: string
  WorkDir :: string
  FileName :: string

text \<open>
  Go errors: a plain error with its text, and the error \<^verbatim>\<open>fmt.Errorf\<close> builds for a
  format ending in \<^verbatim>\<open>%w\<close>, which keeps its own text and the error it wraps.
\<close>

datatype error = ErrorString string | WrapError string error

fun Error :: "error \<Rightarrow> string" where
  "Error (ErrorString s) = s"
| "Error (WrapError msg err) = msg"

definition Errorf_w :: "string \<Rightarrow> error \<Rightarrow> error" where
  "Errorf_w txt err = WrapError (txt @ Error err) err"

text \<open>
  \<^verbatim>\<open>%v\<close> of a \<^verbatim>\<open>*Entry\<close>: a nil pointer prints as \<^verbatim>\<open><nil>\<close>; the text of a pointer that
  is not nil holds an address and is left to the parameter.
\<close>

fun Sprint_v :: "(nat \<Rightarrow> string) \<Rightarrow> nat option \<Rightarrow> string" where
  "Sprint_v render None = ''<nil>''"
| "Sprint_v render (Some a) = render a"

datatype task = RunProcessor Snapshot | Prune Snapshot

datatype 'r event =
    ELock | EUnlock | ERLock | ERUnlock
  | EPublish
  | EPrepareSnapshot string SnapshotTarget
  | ECapture Snapshot
  | EProcess Snapshot
  | EClose 'r
  | EGo task

record RWMutex =
  writer :: bool
  readers :: nat

text \<open>
  The collector. Its fields \<^verbatim>\<open>processor\<close> and \<^verbatim>\<open>publisher\<close> hold handles of
  collaborators and are not in the record: a call through them is the event \<open>EProcess\<close> or
  \<open>EPublish\<close> of the trace, and what \<^verbatim>\<open>Process\<close> returns is read from \<open>collab\<close>. The
  store of the entries (\<open>heap\<close>, with \<open>next_addr\<close> the next cell to allocate) and the
  \<open>trace\<close> are not fields of the source: they are the memory the pointers of \<open>data\<close> lead
  to, and the record of what the goroutine did.
\<close>

record ('st, 'r) Collector =
  typeLabel :: string
  storage :: 'st
  mu :: RWMutex
  data :: "string \<rightharpoonup> nat"
  heap :: "nat \<Rightarrow> Entry"
  next_addr :: nat
  trace :: "'r event list"

text \<open>The outcome of the collaborators' calls.\<close>

record ('st, 'r) collab =
  newStorage :: "string \<Rightarrow> string \<Rightarrow> error + 'st"
  Storage_List :: "'st \<Rightarrow> error + Snapshot list"
  PrepareSnapshot :: "'st \<Rightarrow> string \<Rightarrow> SnapshotTarget \<Rightarrow> Snapshot"
  Snapshot_Collect :: "Snapshot \<Rightarrow> error option"
  Process :: "Snapshot \<Rightarrow> 'r option \<times> error option"
  render_ptr :: "nat \<Rightarrow> string"

subsection \<open>The lock and the trace\<close>

definition emit :: "'r event \<Rightarrow> ('st, 'r) Collector \<Rightarrow> ('st, 'r) Collector" where
  "emit e c = c\<lparr>trace := trace c @ [e]\<rparr>"

definition Lock :: "('st, 'r) Collector \<Rightarrow> ('st, 'r) Collector option" where
  "Lock c =
     (if writer (mu c) \<or> readers (mu c) \<noteq> 0 then None
      else Some (emit ELock (c\<lparr>mu := (mu c)\<lparr>writer := True\<rparr>\<rparr>)))"

definition Unlock :: "('st, 'r) Collector \<Rightarrow> ('st, 'r) Collector option" where
  "Unlock c =
     (if writer (mu c) then Some (emit EUnlock (c\<lparr>mu := (mu c)\<lparr>writer := False\<rparr>\<rparr>))
      else None)"

definition RLock :: "('st, 'r) Collector \<Rightarrow> ('st, 'r) Collector option" where
  "RLock c =
     (if writer (mu c) then None
      else Some (emit ERLock (c\<lparr>mu := (mu c)\<lparr>readers := Suc (readers (mu c))\<rparr>\<rparr>)))"

definition RUnlock :: "('st, 'r) Collector \<Rightarrow> ('st, 'r) Collector option" where
  "RUnlock c =
     (if readers (mu c) = 0 then None
      else Some (emit ERUnlock (c\<lparr>mu := (mu c)\<lparr>readers := readers (mu c) - 1\<rparr>\<rparr>)))"

text \<open>
  The events of a trace that happen while the goroutine holds the lock, shared or
  exclusive; the number is the count of acquisitions not yet released.
\<close>

fun held_calls :: "nat \<Rightarrow> 'r event list \<Rightarrow> 'r event list" where
  "held_calls n [] = []"
| "held_calls n (ELock # es) = held_calls (Suc n) es"
| "held_calls n (ERLock # es) = held_calls (Suc n) es"
| "held_calls n (EUnlock # es) = held_calls (n - 1) es"
| "held_calls n (ERUnlock # es) = held_calls (n - 1) es"
| "held_calls n (e # es) = (if 0 < n then e # held_calls n es else held_calls n es)"

definition new_events :: "('st, 'r) Collector \<Rightarrow> ('st, 'r) Collector \<Rightarrow> 'r event list" where
  "new_events c c' = drop (length (trace c)) (trace c')"

subsection \<open>The methods\<close>

definition updateStatus ::
  "('st, 'r) Collector \<Rightarrow> Snapshot \<Rightarrow> Status \<Rightarrow> string \<Rightarrow> ('st, 'r) Collector option" where
  "updateStatus c snapshot status msg = do {
     c1 \<leftarrow> Lock c;
     let a = next_addr c1;
     let c2 = c1\<lparr>heap := (heap c1)(a := \<lparr>Snapshot = snapshot, Status = status, Message = msg\<rparr>),
                next_addr := Suc a\<rparr>;
     let c3 = c2\<lparr>data := (data c2)(ID snapshot \<mapsto> a)\<rparr>;
     let c4 = emit EPublish c3;
     Unlock c4
   }"

definition runProcessor ::
  "('st, 'r) collab \<Rightarrow> ('st, 'r) Collector \<Rightarrow> Snapshot
     \<Rightarrow> (error option \<times> ('st, 'r) Collector) option" where
  "runProcessor env c snapshot = do {
     c1 \<leftarrow> updateStatus c snapshot StatusPending ''Processing'';
     let c2 = emit (EProcess snapshot) c1;
     let (r, err) = Process env snapshot;
     case err of
       Some e \<Rightarrow> do {
         let c3 = emit (EGo (Prune snapshot)) c2;
         c4 \<leftarrow> updateStatus c3 snapshot StatusFail (Error e);
         Some (Some (Errorf_w ''processor aborted: '' e), c4)
       }
     | None \<Rightarrow> do {
         let c3 = (case r of Some rd \<Rightarrow> emit (EClose rd) c2 | None \<Rightarrow> c2);
         c4 \<leftarrow> updateStatus c3 snapshot StatusOk ''Ready'';
         Some (None, c4)
       }
   }"

definition Get ::
  "('st, 'r) collab \<Rightarrow> ('st, 'r) Collector \<Rightarrow> string
     \<Rightarrow> (('r option \<times> error option) \<times> ('st, 'r) Collector) option" where
  "Get env c id' = do {
     c1 \<leftarrow> RLock c;
     let ent = data c1 id';
     case ent of
       None \<Rightarrow> do {
         c2 \<leftarrow> RUnlock c1;
         Some ((None, Some (ErrorString (''no such entry: '' @ Sprint_v (render_ptr env) ent))), c2)
       }
     | Some a \<Rightarrow> do {
         let c2 = emit (EProcess (Snapshot (heap c1 a))) c1;
         let res = Process env (Snapshot (heap c1 a));
         c3 \<leftarrow> RUnlock c2;
         Some (res, c3)
       }
   }"

text \<open>
  \<^verbatim>\<open>range\<close> over the map visits every key once, in an order the runtime chooses: the
  order is the argument \<open>ks\<close>.
\<close>

fun range_append :: "(string \<rightharpoonup> nat) \<Rightarrow> string list \<Rightarrow> nat list \<Rightarrow> nat list" where
  "range_append m [] resp = resp"
| "range_append m (k # ks) resp =
     (case m k of Some ent \<Rightarrow> range_append m ks (resp @ [ent]) | None \<Rightarrow> range_append m ks resp)"

definition Collector_List ::
  "('st, 'r) Collector \<Rightarrow> string list \<Rightarrow> (nat list \<times> ('st, 'r) Collector) option" where
  "Collector_List c ks = do {
     c1 \<leftarrow> RLock c;
     let resp = range_append (data c1) ks [];
     c2 \<leftarrow> RUnlock c1;
     Some (resp, c2)
   }"

definition Collector_Collect ::
  "('st, 'r) collab \<Rightarrow> ('st, 'r) Collector \<Rightarrow> SnapshotTarget
     \<Rightarrow> (error option \<times> ('st, 'r) Collector) option" where
  "Collector_Collect env c target =
     (if URL target = [] \<or> Duration target = 0
      then Some (Some (ErrorString ''URL and Duration cannot be nil''), c)
      else do {
        let c0 = emit (EPrepareSnapshot (typeLabel c) target) c;
        let snapshot = PrepareSnapshot env (storage c) (typeLabel c) target;
        c1 \<leftarrow> updateStatus c0 snapshot StatusPending ''Collecting'';
        let c2 = emit (ECapture snapshot) c1;
        case Snapshot_Collect env snapshot of
          Some err \<Rightarrow> do {
            c3 \<leftarrow> updateStatus c2 snapshot StatusFail (Error err);
            Some (Some (Errorf_w ''failed to collect: '' err), c3)
          }
        | None \<Rightarrow> do {
            (res, c3) \<leftarrow> runProcessor env c2 snapshot;
            case res of
              Some err \<Rightarrow> do {
                c4 \<leftarrow> updateStatus c3 snapshot StatusFail (Error err);
                Some (Some (Errorf_w ''failed to process: '' err), c4)
              }
            | None \<Rightarrow> Some (None, c3)
          }
      })"

text \<open>
  \<open>New\<close>. The calls \<^verbatim>\<open>newCachedProcessor(processor)\<close> and
  \<^verbatim>\<open>opts.EventHub.Publisher(opts.Type)\<close> build the two handles that are not in the record
  and return nothing the code inspects; they are left out, and with them the argument
  \<^verbatim>\<open>processor\<close> and the field \<^verbatim>\<open>EventHub\<close> of the options. A statement
  \<^verbatim>\<open>go f(x)\<close> starts a goroutine and goes on: it is the event \<open>EGo\<close>, and nothing of
  the goroutine's own run belongs to the caller's.
\<close>

fun go_runProcessor :: "('st, 'r) Collector \<Rightarrow> Snapshot list \<Rightarrow> ('st, 'r) Collector" where
  "go_runProcessor c [] = c"
| "go_runProcessor c (snapshot # snapshots) =
     go_runProcessor (emit (EGo (RunProcessor snapshot)) c) snapshots"

definition zero_Entry :: Entry where
  "zero_Entry =
     \<lparr>Snapshot = \<lparr>ID = [], Label = [], Target = \<lparr>URL = [], Duration = 0\<rparr>\<rparr>,
      Status = [], Message = []\<rparr>"

definition New :: "('st, 'r) collab \<Rightarrow> Options \<Rightarrow> error + ('st, 'r) Collector" where
  "New env opts =
     (case newStorage env (WorkDir opts) (FileName opts) of
        Inl err \<Rightarrow> Inl (Errorf_w ''failed to initialize storage: '' err)
      | Inr store \<Rightarrow>
          (let c = \<lparr>typeLabel = Type opts, storage = store,
                    mu = \<lparr>writer = False, readers = 0\<rparr>,
                    data = Map.empty, heap = (\<lambda>a. zero_Entry), next_addr = 0, trace = []\<rparr>
           in case Storage_List env store of
                Inl err \<Rightarrow> Inl (Errorf_w ''failed to list snapshots: '' err)
              | Inr snapshots \<Rightarrow> Inr (go_runProcessor c snapshots)))"

subsection \<open>Vocabulary of the properties\<close>

text \<open>The lock is free: no writer and no reader holds it.\<close>

definition mu_free :: "('st, 'r) Collector \<Rightarrow> bool" where
  "mu_free c \<longleftrightarrow> \<not> writer (mu c) \<and> readers (mu c) = 0"

text \<open>The entry the ledger shows for a key: the cell its pointer leads to.\<close>

definition entry_of :: "('st, 'r) Collector \<Rightarrow> string \<Rightarrow> Entry option" where
  "entry_of c k = map_option (heap c) (data c k)"

text \<open>Every pointer of the ledger leads to a cell that has been allocated.\<close>

definition allocated :: "('st, 'r) Collector \<Rightarrow> bool" where
  "allocated c \<longleftrightarrow> (\<forall>k a. data c k = Some a \<longrightarrow> a < next_addr c)"

text \<open>Every entry of the ledger has one of the three declared statuses.\<close>

definition statuses_ok :: "('st, 'r) Collector \<Rightarrow> bool" where
  "statuses_ok c \<longleftrightarrow>
     (\<forall>k a. data c k = Some a \<longrightarrow> Status (heap c a) \<in> {StatusPending, StatusOk, StatusFail})"

text \<open>A sequence of calls of \<open>updateStatus\<close>, each with its three arguments.\<close>

fun updates ::
  "('st, 'r) Collector \<Rightarrow> (Snapshot \<times> Status \<times> string) list \<Rightarrow> ('st, 'r) Collector option" where
  "updates c [] = Some c"
| "updates c ((snapshot, status, msg) # us) =
     (case updateStatus c snapshot status msg of None \<Rightarrow> None | Some c' \<Rightarrow> updates c' us)"

definition entry_of_call :: "Snapshot \<times> Status \<times> string \<Rightarrow> Entry" where
  "entry_of_call u = \<lparr>Snapshot = fst u, Status = fst (snd u), Message = snd (snd u)\<rparr>"

text \<open>The calls that may block for long: processing and capture.\<close>

fun blocking_call :: "'r event \<Rightarrow> bool" where
  "blocking_call (EProcess s) = True"
| "blocking_call (ECapture s) = True"
| "blocking_call e = False"

text \<open>The publisher is not invoked while the lock is held.\<close>

definition publish_outside_lock :: "'r event list \<Rightarrow> bool" where
  "publish_outside_lock es \<longleftrightarrow> EPublish \<notin> set (held_calls 0 es)"

text \<open>No processing or capture call is made while the lock is held.\<close>

definition calls_outside_lock :: "'r event list \<Rightarrow> bool" where
  "calls_outside_lock es \<longleftrightarrow> filter blocking_call (held_calls 0 es) = []"

text \<open>What a method that returned left in the ledger, and the error it returned.\<close>

definition ledger_after :: "('x \<times> ('st, 'r) Collector) option \<Rightarrow> string \<Rightarrow> Entry option" where
  "ledger_after res k = (case res of None \<Rightarrow> None | Some (x, c') \<Rightarrow> entry_of c' k)"

definition returned_error ::
  "(('x \<times> error option) \<times> ('st, 'r) Collector) option \<Rightarrow> error option" where
  "returned_error res = (case res of None \<Rightarrow> None | Some ((x, err), c') \<Rightarrow> err)"

subsection \<open>Example inputs\<close>

definition target_ok :: SnapshotTarget where
  "target_ok = \<lparr>URL = ''http://app:6060'', Duration = 5\<rparr>"

definition target_no_url :: SnapshotTarget where
  "target_no_url = \<lparr>URL = [], Duration = 5\<rparr>"

definition target_no_duration :: SnapshotTarget where
  "target_no_duration = \<lparr>URL = ''http://app:6060'', Duration = 0\<rparr>"

definition snap1 :: Snapshot where
  "snap1 = \<lparr>ID = ''s1'', Label = ''pprof'', Target = target_ok\<rparr>"

definition snap0 :: Snapshot where
  "snap0 = \<lparr>ID = ''s0'', Label = ''pprof'', Target = target_ok\<rparr>"

definition opts0 :: Options where
  "opts0 = \<lparr>Type = ''pprof'', WorkDir = ''/tmp'', FileName = ''profile.pb.gz''\<rparr>"

text \<open>A collector just made, with no snapshot on disk, and one whose ledger has an entry.\<close>

definition c_init :: "(unit, nat) Collector" where
  "c_init = \<lparr>typeLabel = ''pprof'', storage = (), mu = \<lparr>writer = False, readers = 0\<rparr>,
             data = Map.empty, heap = (\<lambda>a. zero_Entry), next_addr = 0, trace = []\<rparr>"

definition c_ready :: "(unit, nat) Collector" where
  "c_ready = \<lparr>typeLabel = ''pprof'', storage = (), mu = \<lparr>writer = False, readers = 0\<rparr>,
              data = [''s1'' \<mapsto> 0],
              heap = (\<lambda>a. zero_Entry)(0 := \<lparr>Snapshot = snap1, Status = StatusOk, Message = ''Ready''\<rparr>),
              next_addr = 1, trace = []\<rparr>"

text \<open>
  Collaborators that all succeed (two snapshots on disk), and ones where storage cannot be
  listed, where capture fails and where processing fails.
\<close>

definition env_ok :: "(unit, nat) collab" where
  "env_ok = \<lparr>newStorage = (\<lambda>dir file. Inr ()),
             Storage_List = (\<lambda>st. Inr [snap0, snap1]),
             PrepareSnapshot = (\<lambda>st label target. \<lparr>ID = ''s1'', Label = label, Target = target\<rparr>),
             Snapshot_Collect = (\<lambda>s. None),
             Process = (\<lambda>s. (Some 7, None)),
             render_ptr = (\<lambda>a. ''&{}'')\<rparr>"

definition env_list_fails :: "(unit, nat) collab" where
  "env_list_fails = env_ok\<lparr>Storage_List := (\<lambda>st. Inl (ErrorString ''permission denied''))\<rparr>"

definition env_capture_fails :: "(unit, nat) collab" where
  "env_capture_fails = env_ok\<lparr>Snapshot_Collect := (\<lambda>s. Some (ErrorString ''connection refused''))\<rparr>"

definition env_process_fails :: "(unit, nat) collab" where
  "env_process_fails = env_ok\<lparr>Process := (\<lambda>s. (None, Some (ErrorString ''bad profile'')))\<rparr>"

section \<open>Properties\<close>

subsection \<open>What each method does from a free lock\<close>

lemma updateStatus_eq:
  assumes "mu_free c"
  shows "updateStatus c snapshot status msg =
    Some (c\<lparr>data := (data c)(ID snapshot \<mapsto> next_addr c),
            heap := (heap c)(next_addr c := \<lparr>Snapshot = snapshot, Status = status, Message = msg\<rparr>),
            next_addr := Suc (next_addr c),
            trace := trace c @ [ELock, EPublish, EUnlock]\<rparr>)"
  using assms
  by (simp add: updateStatus_def Lock_def Unlock_def emit_def mu_free_def Let_def)

lemma updateStatus_blocks:
  assumes "\<not> mu_free c"
  shows "updateStatus c snapshot status msg = None"
  using assms by (auto simp: updateStatus_def Lock_def mu_free_def)

lemma runProcessor_fail:
  assumes "mu_free c" and "Process env snapshot = (r, Some e)"
  shows "runProcessor env c snapshot =
    Some (Some (Errorf_w ''processor aborted: '' e),
      c\<lparr>data := (data c)(ID snapshot \<mapsto> Suc (next_addr c)),
        heap := (heap c)
          (next_addr c := \<lparr>Snapshot = snapshot, Status = StatusPending, Message = ''Processing''\<rparr>,
           Suc (next_addr c) := \<lparr>Snapshot = snapshot, Status = StatusFail, Message = Error e\<rparr>),
        next_addr := Suc (Suc (next_addr c)),
        trace := trace c @ [ELock, EPublish, EUnlock, EProcess snapshot, EGo (Prune snapshot),
                            ELock, EPublish, EUnlock]\<rparr>)"
  using assms
  by (simp add: runProcessor_def updateStatus_eq mu_free_def emit_def)

lemma runProcessor_ok:
  assumes "mu_free c" and "Process env snapshot = (r, None)"
  shows "runProcessor env c snapshot =
    Some (None,
      c\<lparr>data := (data c)(ID snapshot \<mapsto> Suc (next_addr c)),
        heap := (heap c)
          (next_addr c := \<lparr>Snapshot = snapshot, Status = StatusPending, Message = ''Processing''\<rparr>,
           Suc (next_addr c) := \<lparr>Snapshot = snapshot, Status = StatusOk, Message = ''Ready''\<rparr>),
        next_addr := Suc (Suc (next_addr c)),
        trace := trace c @ [ELock, EPublish, EUnlock, EProcess snapshot] @
                 (case r of Some rd \<Rightarrow> [EClose rd] | None \<Rightarrow> []) @ [ELock, EPublish, EUnlock]\<rparr>)"
  using assms
  by (cases r) (simp_all add: runProcessor_def updateStatus_eq mu_free_def emit_def)

lemma Collect_capture_fail:
  assumes "mu_free c" and "URL target \<noteq> []" and "Duration target \<noteq> 0"
    and "PrepareSnapshot env (storage c) (typeLabel c) target = snapshot"
    and "Snapshot_Collect env snapshot = Some err"
  shows "Collector_Collect env c target =
    Some (Some (Errorf_w ''failed to collect: '' err),
      c\<lparr>data := (data c)(ID snapshot \<mapsto> Suc (next_addr c)),
        heap := (heap c)
          (next_addr c := \<lparr>Snapshot = snapshot, Status = StatusPending, Message = ''Collecting''\<rparr>,
           Suc (next_addr c) := \<lparr>Snapshot = snapshot, Status = StatusFail, Message = Error err\<rparr>),
        next_addr := Suc (Suc (next_addr c)),
        trace := trace c @ [EPrepareSnapshot (typeLabel c) target, ELock, EPublish, EUnlock,
                            ECapture snapshot, ELock, EPublish, EUnlock]\<rparr>)"
  using assms
  by (simp add: Collector_Collect_def updateStatus_eq mu_free_def emit_def)

lemma Collect_process_fail:
  assumes "mu_free c" and "URL target \<noteq> []" and "Duration target \<noteq> 0"
    and "PrepareSnapshot env (storage c) (typeLabel c) target = snapshot"
    and "Snapshot_Collect env snapshot = None"
    and "Process env snapshot = (r, Some e)"
  shows "Collector_Collect env c target =
    Some (Some (Errorf_w ''failed to process: '' (Errorf_w ''processor aborted: '' e)),
      c\<lparr>data := (data c)(ID snapshot \<mapsto> Suc (Suc (Suc (next_addr c)))),
        heap := (heap c)
          (next_addr c := \<lparr>Snapshot = snapshot, Status = StatusPending, Message = ''Collecting''\<rparr>,
           Suc (next_addr c) := \<lparr>Snapshot = snapshot, Status = StatusPending, Message = ''Processing''\<rparr>,
           Suc (Suc (next_addr c)) := \<lparr>Snapshot = snapshot, Status = StatusFail, Message = Error e\<rparr>,
           Suc (Suc (Suc (next_addr c))) :=
             \<lparr>Snapshot = snapshot, Status = StatusFail, Message = ''processor aborted: '' @ Error e\<rparr>),
        next_addr := Suc (Suc (Suc (Suc (next_addr c)))),
        trace := trace c @ [EPrepareSnapshot (typeLabel c) target, ELock, EPublish, EUnlock,
                            ECapture snapshot, ELock, EPublish, EUnlock, EProcess snapshot,
                            EGo (Prune snapshot), ELock, EPublish, EUnlock,
                            ELock, EPublish, EUnlock]\<rparr>)"
  using assms
  by (simp add: Collector_Collect_def updateStatus_eq runProcessor_fail mu_free_def emit_def
      Errorf_w_def)

lemma Collect_ok:
  assumes "mu_free c" and "URL target \<noteq> []" and "Duration target \<noteq> 0"
    and "PrepareSnapshot env (storage c) (typeLabel c) target = snapshot"
    and "Snapshot_Collect env snapshot = None"
    and "Process env snapshot = (r, None)"
  shows "Collector_Collect env c target =
    Some (None,
      c\<lparr>data := (data c)(ID snapshot \<mapsto> Suc (Suc (next_addr c))),
        heap := (heap c)
          (next_addr c := \<lparr>Snapshot = snapshot, Status = StatusPending, Message = ''Collecting''\<rparr>,
           Suc (next_addr c) := \<lparr>Snapshot = snapshot, Status = StatusPending, Message = ''Processing''\<rparr>,
           Suc (Suc (next_addr c)) := \<lparr>Snapshot = snapshot, Status = StatusOk, Message = ''Ready''\<rparr>),
        next_addr := Suc (Suc (Suc (next_addr c))),
        trace := trace c @ [EPrepareSnapshot (typeLabel c) target, ELock, EPublish, EUnlock,
                            ECapture snapshot, ELock, EPublish, EUnlock, EProcess snapshot] @
                 (case r of Some rd \<Rightarrow> [EClose rd] | None \<Rightarrow> []) @ [ELock, EPublish, EUnlock]\<rparr>)"
  using assms
  by (simp add: Collector_Collect_def updateStatus_eq runProcessor_ok mu_free_def emit_def)

lemma Get_absent:
  assumes "\<not> writer (mu c)" and "data c k = None"
  shows "Get env c k =
    Some ((None, Some (ErrorString ''no such entry: <nil>'')),
          c\<lparr>trace := trace c @ [ERLock, ERUnlock]\<rparr>)"
  using assms
  by (simp add: Get_def RLock_def RUnlock_def emit_def)

lemma Get_present:
  assumes "\<not> writer (mu c)" and "data c k = Some a"
  shows "Get env c k =
    Some (Process env (Snapshot (heap c a)),
          c\<lparr>trace := trace c @ [ERLock, EProcess (Snapshot (heap c a)), ERUnlock]\<rparr>)"
  using assms
  by (simp add: Get_def RLock_def RUnlock_def emit_def)

lemma List_eq:
  assumes "\<not> writer (mu c)"
  shows "Collector_List c ks =
    Some (range_append (data c) ks [], c\<lparr>trace := trace c @ [ERLock, ERUnlock]\<rparr>)"
  using assms
  by (simp add: Collector_List_def RLock_def RUnlock_def emit_def)

lemma range_append_enum:
  "set (range_append m ks resp) = set resp \<union> {a. \<exists>k \<in> set ks. m k = Some a}"
  by (induction ks arbitrary: resp) (auto split: option.splits)

lemma go_runProcessor_eq:
  "go_runProcessor c snapshots =
     c\<lparr>trace := trace c @ map (\<lambda>s. EGo (RunProcessor s)) snapshots\<rparr>"
  by (induction snapshots arbitrary: c) (simp_all add: emit_def)

lemma runProcessor_calls_outside_lock:
  assumes "mu_free c"
  shows "\<exists>res c'. runProcessor env c snapshot = Some (res, c')
           \<and> EProcess snapshot \<in> set (new_events c c')
           \<and> calls_outside_lock (new_events c c') \<and> mu_free c'"
proof -
  obtain r pe where p: "Process env snapshot = (r, pe)"
    by (cases "Process env snapshot")
  show ?thesis
  proof (cases pe)
    case None
    with assms p show ?thesis
      by (cases r)
        (simp_all add: runProcessor_ok new_events_def calls_outside_lock_def mu_free_def)
  next
    case (Some e)
    with assms p show ?thesis
      by (simp add: runProcessor_fail new_events_def calls_outside_lock_def mu_free_def)
  qed
qed

lemma Collect_calls_outside_lock:
  assumes "mu_free c"
  shows "\<exists>res c'. Collector_Collect env c target = Some (res, c')
           \<and> calls_outside_lock (new_events c c') \<and> mu_free c'"
proof (cases "URL target = [] \<or> Duration target = 0")
  case True
  with assms show ?thesis
    by (simp add: Collector_Collect_def new_events_def calls_outside_lock_def)
next
  case False
  define snapshot where "snapshot = PrepareSnapshot env (storage c) (typeLabel c) target"
  obtain r pe where p: "Process env snapshot = (r, pe)"
    by (cases "Process env snapshot")
  show ?thesis
  proof (cases "Snapshot_Collect env snapshot")
    case (Some err)
    with assms False snapshot_def show ?thesis
      by (simp add: Collect_capture_fail new_events_def calls_outside_lock_def mu_free_def)
  next
    case None
    show ?thesis
    proof (cases pe)
      case (Some e)
      with assms False snapshot_def p None show ?thesis
        by (simp add: Collect_process_fail new_events_def calls_outside_lock_def mu_free_def)
    next
      case pe_None: None
      with assms False snapshot_def p None show ?thesis
        by (cases r)
          (simp_all add: Collect_ok new_events_def calls_outside_lock_def mu_free_def)
    qed
  qed
qed

lemma entry_of_other:
  assumes "allocated c" and "data' k = data c k"
    and "\<forall>a < next_addr c. heap' a = heap c a"
  shows "entry_of (c\<lparr>data := data', heap := heap', next_addr := n, trace := t\<rparr>) k = entry_of c k"
proof (cases "data c k")
  case None
  with assms(2) show ?thesis by (simp add: entry_of_def)
next
  case (Some a)
  with assms(1) have "a < next_addr c" by (auto simp: allocated_def)
  with assms(2,3) Some show ?thesis by (simp add: entry_of_def)
qed

subsection \<open>Sequences of updates and the invariants of the ledger\<close>

lemma updates_sequence:
  assumes "mu_free c" and "allocated c"
    and "\<forall>u \<in> set us. ID (fst u) = i"
  shows "\<exists>c'. updates c us = Some c' \<and> mu_free c' \<and> allocated c'
           \<and> next_addr c' = next_addr c + length us
           \<and> (\<forall>a < next_addr c. heap c' a = heap c a)
           \<and> (\<forall>k. k \<noteq> i \<longrightarrow> data c' k = data c k)
           \<and> (us \<noteq> [] \<longrightarrow> data c' i = Some (next_addr c + length us - 1)
                 \<and> heap c' (next_addr c + length us - 1) = entry_of_call (last us))"
  using assms
proof (induction us arbitrary: c)
  case Nil
  then show ?case by simp
next
  case (Cons u us)
  obtain snapshot status msg where u: "u = (snapshot, status, msg)"
    by (cases u) auto
  define c1 where "c1 = c\<lparr>data := (data c)(ID snapshot \<mapsto> next_addr c),
            heap := (heap c)(next_addr c := \<lparr>Snapshot = snapshot, Status = status, Message = msg\<rparr>),
            next_addr := Suc (next_addr c),
            trace := trace c @ [ELock, EPublish, EUnlock]\<rparr>"
  have step: "updateStatus c snapshot status msg = Some c1"
    using Cons.prems(1) by (simp add: updateStatus_eq c1_def)
  have idi: "ID snapshot = i"
    using Cons.prems(3) u by auto
  have free1: "mu_free c1"
    using Cons.prems(1) by (simp add: c1_def mu_free_def)
  have alloc1: "allocated c1"
    using Cons.prems(2) by (auto simp: c1_def allocated_def less_Suc_eq)
  have rest: "\<forall>u \<in> set us. ID (fst u) = i"
    using Cons.prems(3) by simp
  from Cons.IH [OF free1 alloc1 rest]
  obtain c' where c': "updates c1 us = Some c'" "mu_free c'" "allocated c'"
      "next_addr c' = next_addr c1 + length us"
      "\<forall>a < next_addr c1. heap c' a = heap c1 a"
      "\<forall>k. k \<noteq> i \<longrightarrow> data c' k = data c1 k"
      "us \<noteq> [] \<longrightarrow> data c' i = Some (next_addr c1 + length us - 1)
                 \<and> heap c' (next_addr c1 + length us - 1) = entry_of_call (last us)"
    by blast
  have n1: "next_addr c1 = Suc (next_addr c)"
    by (simp add: c1_def)
  have run: "updates c (u # us) = Some c'"
    using step c'(1) by (simp add: u)
  have nxt: "next_addr c' = next_addr c + length (u # us)"
    using c'(4) n1 by simp
  have old: "\<forall>a < next_addr c. heap c' a = heap c a"
    using c'(5) n1 by (simp add: c1_def)
  have others: "\<forall>k. k \<noteq> i \<longrightarrow> data c' k = data c k"
    using c'(6) idi by (simp add: c1_def)
  have lst: "data c' i = Some (next_addr c + length (u # us) - 1)
       \<and> heap c' (next_addr c + length (u # us) - 1) = entry_of_call (last (u # us))"
  proof (cases "us = []")
    case True
    then have "c' = c1" using c'(1) by simp
    then show ?thesis
      using True idi by (simp add: c1_def u entry_of_call_def)
  next
    case False
    then show ?thesis using c'(7) n1 by simp
  qed
  show ?case
    using run c'(2,3) nxt old others lst by blast
qed

lemma updateStatus_invariants:
  assumes "mu_free c" and "allocated c" and "statuses_ok c"
    and "status \<in> {StatusPending, StatusOk, StatusFail}"
  shows "\<exists>c'. updateStatus c snapshot status msg = Some c'
           \<and> mu_free c' \<and> allocated c' \<and> statuses_ok c'"
proof -
  define c' where "c' = c\<lparr>data := (data c)(ID snapshot \<mapsto> next_addr c),
            heap := (heap c)(next_addr c := \<lparr>Snapshot = snapshot, Status = status, Message = msg\<rparr>),
            next_addr := Suc (next_addr c),
            trace := trace c @ [ELock, EPublish, EUnlock]\<rparr>"
  have "updateStatus c snapshot status msg = Some c'"
    using assms(1) by (simp add: updateStatus_eq c'_def)
  moreover have "mu_free c'"
    using assms(1) by (simp add: c'_def mu_free_def)
  moreover have "allocated c'"
    using assms(2) by (auto simp: c'_def allocated_def less_Suc_eq)
  moreover have "statuses_ok c'"
    using assms(2,3,4) unfolding statuses_ok_def allocated_def c'_def
    by (auto split: if_splits)
  ultimately show ?thesis by blast
qed

lemma updates_statuses:
  assumes "mu_free c" and "allocated c" and "statuses_ok c"
    and "\<forall>u \<in> set us. fst (snd u) \<in> {StatusPending, StatusOk, StatusFail}"
    and "updates c us = Some c'"
  shows "statuses_ok c'"
  using assms
proof (induction us arbitrary: c)
  case Nil
  then show ?case by simp
next
  case (Cons u us)
  obtain snapshot status msg where u: "u = (snapshot, status, msg)"
    by (cases u) auto
  have st: "status \<in> {StatusPending, StatusOk, StatusFail}"
    using Cons.prems(4) u by simp
  obtain c1 where c1: "updateStatus c snapshot status msg = Some c1"
      "mu_free c1" "allocated c1" "statuses_ok c1"
    using updateStatus_invariants [OF Cons.prems(1,2,3) st] by blast
  have "updates c1 us = Some c'"
    using Cons.prems(5) c1(1) by (simp add: u)
  moreover have "\<forall>u \<in> set us. fst (snd u) \<in> {StatusPending, StatusOk, StatusFail}"
    using Cons.prems(4) by simp
  ultimately show ?case
    using Cons.IH [OF c1(2,3,4)] by blast
qed

lemma List_pointers:
  assumes "Collector_List c ks = Some (ptrs, c')"
  shows "set ptrs \<subseteq> ran (data c) \<and> heap c' = heap c \<and> data c' = data c"
proof -
  have nw: "\<not> writer (mu c)"
    using assms by (auto simp: Collector_List_def RLock_def split: if_splits)
  from assms show ?thesis
    unfolding List_eq [OF nw] by (auto simp: range_append_enum ran_def)
qed

lemma List_statuses:
  assumes "mu_free c" and "statuses_ok c"
  shows "\<exists>ptrs c'. Collector_List c ks = Some (ptrs, c')
           \<and> (\<forall>p \<in> set ptrs. Status (heap c' p) \<in> {StatusPending, StatusOk, StatusFail})"
proof -
  have nw: "\<not> writer (mu c)"
    using assms(1) by (simp add: mu_free_def)
  have "Status (heap c p) \<in> {StatusPending, StatusOk, StatusFail}"
    if "p \<in> set (range_append (data c) ks [])" for p
    using that assms(2) unfolding range_append_enum statuses_ok_def by auto
  then show ?thesis
    by (simp add: List_eq [OF nw])
qed

lemma emit_invariants:
  "mu_free (emit e c) = mu_free c" "allocated (emit e c) = allocated c"
  "statuses_ok (emit e c) = statuses_ok c"
  by (simp_all add: emit_def mu_free_def allocated_def statuses_ok_def)

lemma runProcessor_invariants:
  assumes "mu_free c" and "allocated c" and "statuses_ok c"
  shows "\<exists>res c'. runProcessor env c snapshot = Some (res, c')
           \<and> mu_free c' \<and> allocated c' \<and> statuses_ok c'"
proof -
  obtain c1 where c1: "updateStatus c snapshot StatusPending ''Processing'' = Some c1"
      "mu_free c1" "allocated c1" "statuses_ok c1"
    using updateStatus_invariants [OF assms, of StatusPending] by auto
  obtain r pe where p: "Process env snapshot = (r, pe)"
    by (cases "Process env snapshot")
  show ?thesis
  proof (cases pe)
    case (Some e)
    let ?c3 = "emit (EGo (Prune snapshot)) (emit (EProcess snapshot) c1)"
    obtain c4 where "updateStatus ?c3 snapshot StatusFail (Error e) = Some c4"
      "mu_free c4" "allocated c4" "statuses_ok c4"
      using updateStatus_invariants [of ?c3 StatusFail] c1(2,3,4)
      by (auto simp: emit_invariants)
    with c1(1) p Some show ?thesis
      by (simp add: runProcessor_def)
  next
    case None
    let ?c3 = "case r of Some rd \<Rightarrow> emit (EClose rd) (emit (EProcess snapshot) c1)
                 | None \<Rightarrow> emit (EProcess snapshot) c1"
    have "mu_free ?c3" "allocated ?c3" "statuses_ok ?c3"
      using c1(2,3,4) by (simp_all add: emit_invariants split: option.splits)
    then obtain c4 where "updateStatus ?c3 snapshot StatusOk ''Ready'' = Some c4"
      "mu_free c4" "allocated c4" "statuses_ok c4"
      using updateStatus_invariants [of ?c3 StatusOk] by auto
    with c1(1) p None show ?thesis
      by (simp add: runProcessor_def)
  qed
qed

lemma Collect_invariants:
  assumes "mu_free c" and "allocated c" and "statuses_ok c"
  shows "\<exists>res c'. Collector_Collect env c target = Some (res, c')
           \<and> mu_free c' \<and> allocated c' \<and> statuses_ok c'"
proof (cases "URL target = [] \<or> Duration target = 0")
  case True
  with assms show ?thesis by (simp add: Collector_Collect_def)
next
  case False
  define snapshot where "snapshot = PrepareSnapshot env (storage c) (typeLabel c) target"
  let ?c0 = "emit (EPrepareSnapshot (typeLabel c) target) c"
  obtain c1 where c1: "updateStatus ?c0 snapshot StatusPending ''Collecting'' = Some c1"
      "mu_free c1" "allocated c1" "statuses_ok c1"
    using updateStatus_invariants [of ?c0 StatusPending] assms
    by (auto simp: emit_invariants)
  let ?c2 = "emit (ECapture snapshot) c1"
  have c2: "mu_free ?c2" "allocated ?c2" "statuses_ok ?c2"
    using c1(2,3,4) by (simp_all add: emit_invariants)
  show ?thesis
  proof (cases "Snapshot_Collect env snapshot")
    case (Some err)
    obtain c3 where "updateStatus ?c2 snapshot StatusFail (Error err) = Some c3"
      "mu_free c3" "allocated c3" "statuses_ok c3"
      using updateStatus_invariants [OF c2, of StatusFail] by auto
    with False c1(1) Some show ?thesis
      by (simp add: Collector_Collect_def snapshot_def)
  next
    case None
    obtain res c3 where c3: "runProcessor env ?c2 snapshot = Some (res, c3)"
      "mu_free c3" "allocated c3" "statuses_ok c3"
      using runProcessor_invariants [OF c2] by blast
    show ?thesis
    proof (cases res)
      case res_None: None
      with False c1(1) None c3 show ?thesis
        by (simp add: Collector_Collect_def snapshot_def)
    next
      case (Some err)
      obtain c4 where "updateStatus c3 snapshot StatusFail (Error err) = Some c4"
        "mu_free c4" "allocated c4" "statuses_ok c4"
        using updateStatus_invariants [OF c3(2,3,4), of StatusFail] by auto
      with False c1(1) None c3 Some show ?thesis
        by (simp add: Collector_Collect_def snapshot_def)
    qed
  qed
qed

lemma New_invariants:
  assumes "New env opts = Inr c"
  shows "mu_free c \<and> allocated c \<and> statuses_ok c"
  using assms
  by (auto simp: New_def go_runProcessor_eq mu_free_def allocated_def statuses_ok_def Let_def
      split: sum.splits)

subsection \<open>The claims\<close>


text \<open>
  C1, as amended. A call of \<open>updateStatus\<close> from a free lock returns; its events are the
  acquisition of the exclusive lock, one publish and the release, in this order: exactly one
  publish event, emitted while the exclusive lock is held (the release is deferred to the
  return of the function).
\<close>

theorem updateStatus_publishes_once_under_lock:
  assumes "mu_free c"
  shows "\<exists>c'. updateStatus c snapshot status msg = Some c'
           \<and> new_events c c' = [ELock, EPublish, EUnlock]
           \<and> count_list (new_events c c') EPublish = 1
           \<and> held_calls 0 (new_events c c') = [EPublish]
           \<and> mu_free c'"
  using assms
  by (simp add: updateStatus_eq new_events_def mu_free_def)

theorem updateStatus_publishes_once_under_lock_witness:
  "mu_free c_init \<and>
   (\<exists>c'. updateStatus c_init snap1 StatusPending ''Collecting'' = Some c'
      \<and> new_events c_init c' = [ELock, EPublish, EUnlock]
      \<and> count_list (new_events c_init c') EPublish = 1
      \<and> held_calls 0 (new_events c_init c') = [EPublish]
      \<and> mu_free c')"
proof -
  have h: "mu_free c_init"
    by (simp add: mu_free_def c_init_def)
  from h updateStatus_publishes_once_under_lock [OF h, of snap1 StatusPending "''Collecting''"]
  show ?thesis by blast
qed

text \<open>
  C1 as the spec has it, with the publish emitted while no lock is held, fails on the first
  update of a new collector.
\<close>

theorem updateStatus_publish_outside_lock_counterexample:
  "map_option (publish_outside_lock \<circ> new_events c_init)
     (updateStatus c_init snap1 StatusPending ''Collecting'') = Some False"
  by (simp add: updateStatus_def Lock_def Unlock_def emit_def c_init_def new_events_def
      publish_outside_lock_def)

text \<open>
  C2, as amended. \<open>updateStatus\<close> and \<open>Collector_List\<close> make no processing or capture call
  (\<open>updateStatus\<close> holds the exclusive lock across the store into the map and the publish,
  \<open>Collector_List\<close> the shared lock across the read). \<open>Get\<close> of an absent key holds the
  shared lock for the lookup only; \<open>Get\<close> of a key of the ledger holds the shared lock across
  its processing call. \<open>runProcessor\<close> and \<open>Collector_Collect\<close> make their processing and
  capture calls with the lock released.
\<close>

theorem lock_held_across_calls:
  "(mu_free c \<longrightarrow>
      (\<exists>c'. updateStatus c snapshot status msg = Some c'
         \<and> filter blocking_call (new_events c c') = []
         \<and> held_calls 0 (new_events c c') = [EPublish]))
   \<and> (\<not> writer (mu c) \<longrightarrow>
      (\<exists>ptrs c'. Collector_List c ks = Some (ptrs, c') \<and> new_events c c' = [ERLock, ERUnlock]))
   \<and> (\<not> writer (mu c) \<and> data c k = None \<longrightarrow>
      (\<exists>res c'. Get env c k = Some (res, c') \<and> new_events c c' = [ERLock, ERUnlock]))
   \<and> (\<not> writer (mu c) \<and> data c k = Some a \<longrightarrow>
      (\<exists>res c'. Get env c k = Some (res, c')
         \<and> new_events c c' = [ERLock, EProcess (Snapshot (heap c a)), ERUnlock]
         \<and> held_calls 0 (new_events c c') = [EProcess (Snapshot (heap c a))]))
   \<and> (mu_free c \<longrightarrow>
      (\<exists>res c'. runProcessor env c snapshot = Some (res, c')
         \<and> EProcess snapshot \<in> set (new_events c c')
         \<and> calls_outside_lock (new_events c c')))
   \<and> (mu_free c \<longrightarrow>
      (\<exists>res c'. Collector_Collect env c target = Some (res, c')
         \<and> calls_outside_lock (new_events c c')))"
proof (intro conjI impI)
  assume "mu_free c"
  then show "\<exists>c'. updateStatus c snapshot status msg = Some c'
         \<and> filter blocking_call (new_events c c') = []
         \<and> held_calls 0 (new_events c c') = [EPublish]"
    by (simp add: updateStatus_eq new_events_def)
next
  assume "\<not> writer (mu c)"
  then show "\<exists>ptrs c'. Collector_List c ks = Some (ptrs, c')
      \<and> new_events c c' = [ERLock, ERUnlock]"
    by (simp add: List_eq new_events_def)
next
  assume "\<not> writer (mu c) \<and> data c k = None"
  then show "\<exists>res c'. Get env c k = Some (res, c') \<and> new_events c c' = [ERLock, ERUnlock]"
    by (simp add: Get_absent new_events_def)
next
  assume "\<not> writer (mu c) \<and> data c k = Some a"
  then show "\<exists>res c'. Get env c k = Some (res, c')
         \<and> new_events c c' = [ERLock, EProcess (Snapshot (heap c a)), ERUnlock]
         \<and> held_calls 0 (new_events c c') = [EProcess (Snapshot (heap c a))]"
    by (simp add: Get_present new_events_def)
next
  assume "mu_free c"
  then show "\<exists>res c'. runProcessor env c snapshot = Some (res, c')
         \<and> EProcess snapshot \<in> set (new_events c c')
         \<and> calls_outside_lock (new_events c c')"
    using runProcessor_calls_outside_lock [of c env snapshot] by blast
next
  assume "mu_free c"
  then show "\<exists>res c'. Collector_Collect env c target = Some (res, c')
         \<and> calls_outside_lock (new_events c c')"
    using Collect_calls_outside_lock [of c env target] by blast
qed

theorem lock_held_across_calls_witness:
  "mu_free c_ready \<and> \<not> writer (mu c_ready)
   \<and> data c_ready ''zz'' = None \<and> data c_ready ''s1'' = Some 0
   \<and> (\<exists>c'. updateStatus c_ready snap1 StatusPending ''Processing'' = Some c'
         \<and> filter blocking_call (new_events c_ready c') = []
         \<and> held_calls 0 (new_events c_ready c') = [EPublish])
   \<and> (\<exists>ptrs c'. Collector_List c_ready [''s1''] = Some (ptrs, c')
         \<and> new_events c_ready c' = [ERLock, ERUnlock])
   \<and> (\<exists>res c'. Get env_ok c_ready ''zz'' = Some (res, c')
         \<and> new_events c_ready c' = [ERLock, ERUnlock])
   \<and> (\<exists>res c'. Get env_ok c_ready ''s1'' = Some (res, c')
         \<and> new_events c_ready c' = [ERLock, EProcess (Snapshot (heap c_ready 0)), ERUnlock]
         \<and> held_calls 0 (new_events c_ready c') = [EProcess (Snapshot (heap c_ready 0))])
   \<and> (\<exists>res c'. runProcessor env_ok c_ready snap1 = Some (res, c')
         \<and> EProcess snap1 \<in> set (new_events c_ready c')
         \<and> calls_outside_lock (new_events c_ready c'))
   \<and> (\<exists>res c'. Collector_Collect env_ok c_ready target_ok = Some (res, c')
         \<and> calls_outside_lock (new_events c_ready c'))"
proof -
  have h1: "mu_free c_ready" and h2: "\<not> writer (mu c_ready)"
    and h3: "data c_ready ''zz'' = None" and h4: "data c_ready ''s1'' = Some 0"
    by (simp_all add: mu_free_def c_ready_def)
  from h1 h2 h3 h4
    lock_held_across_calls [of c_ready snap1 StatusPending "''Processing''" "[''s1'']"
      "''zz''" env_ok 0 target_ok]
    lock_held_across_calls [of c_ready snap1 StatusPending "''Processing''" "[''s1'']"
      "''s1''" env_ok 0 target_ok]
  show ?thesis by blast
qed

text \<open>
  C2 as the spec has it, with no operation holding the lock across a processing call, fails
  for \<open>Get\<close> of a key of the ledger.
\<close>

theorem Get_holds_lock_across_Process_counterexample:
  "map_option (calls_outside_lock \<circ> new_events c_ready \<circ> snd) (Get env_ok c_ready ''s1'')
     = Some False"
  by (simp add: Get_def RLock_def RUnlock_def emit_def c_ready_def new_events_def
      calls_outside_lock_def env_ok_def)

text \<open>
  C3, as amended. Capture succeeds and processing fails with the error \<open>e\<close>:
  \<open>Collector_Collect\<close> returns the error that wraps, as the processing stage, the error
  \<open>runProcessor\<close> returned; the entry of the snapshot ends with the status \<open>StatusFail\<close> and
  the message \<^verbatim>\<open>processor aborted: \<close> followed by the text of \<open>e\<close>; and the pruning of the
  snapshot is started once, as a goroutine.
\<close>

theorem Collect_processing_failure:
  assumes "mu_free c" and "URL target \<noteq> []" and "Duration target \<noteq> 0"
    and "PrepareSnapshot env (storage c) (typeLabel c) target = snapshot"
    and "Snapshot_Collect env snapshot = None"
    and "Process env snapshot = (r, Some e)"
  shows "\<exists>err c'. Collector_Collect env c target = Some (Some err, c')
           \<and> err = Errorf_w ''failed to process: '' (Errorf_w ''processor aborted: '' e)
           \<and> Error err = ''failed to process: processor aborted: '' @ Error e
           \<and> entry_of c' (ID snapshot) =
               Some \<lparr>Snapshot = snapshot, Status = StatusFail,
                     Message = ''processor aborted: '' @ Error e\<rparr>
           \<and> count_list (new_events c c') (EGo (Prune snapshot)) = 1"
  by (simp add: Collect_process_fail [OF assms] entry_of_def new_events_def Errorf_w_def)

theorem Collect_processing_failure_witness:
  "mu_free c_init \<and> URL target_ok \<noteq> [] \<and> Duration target_ok \<noteq> 0
   \<and> PrepareSnapshot env_process_fails (storage c_init) (typeLabel c_init) target_ok = snap1
   \<and> Snapshot_Collect env_process_fails snap1 = None
   \<and> Process env_process_fails snap1 = (None, Some (ErrorString ''bad profile''))
   \<and> (\<exists>err c'. Collector_Collect env_process_fails c_init target_ok = Some (Some err, c')
         \<and> Error err = ''failed to process: processor aborted: bad profile''
         \<and> entry_of c' ''s1'' =
             Some \<lparr>Snapshot = snap1, Status = StatusFail,
                   Message = ''processor aborted: bad profile''\<rparr>
         \<and> count_list (new_events c_init c') (EGo (Prune snap1)) = 1)"
proof -
  have h: "mu_free c_init" "URL target_ok \<noteq> []" "Duration target_ok \<noteq> 0"
    "PrepareSnapshot env_process_fails (storage c_init) (typeLabel c_init) target_ok = snap1"
    "Snapshot_Collect env_process_fails snap1 = None"
    "Process env_process_fails snap1 = (None, Some (ErrorString ''bad profile''))"
    by (simp_all add: mu_free_def c_init_def target_ok_def env_process_fails_def env_ok_def
        snap1_def)
  have i: "ID snap1 = ''s1''"
    by (simp add: snap1_def)
  from Collect_processing_failure [OF h] i have
    "\<exists>err c'. Collector_Collect env_process_fails c_init target_ok = Some (Some err, c')
         \<and> Error err = ''failed to process: processor aborted: bad profile''
         \<and> entry_of c' ''s1'' =
             Some \<lparr>Snapshot = snap1, Status = StatusFail,
                   Message = ''processor aborted: bad profile''\<rparr>
         \<and> count_list (new_events c_init c') (EGo (Prune snap1)) = 1"
    by auto
  with h show ?thesis by blast
qed

text \<open>
  C3 as the spec has it, with the message equal to the text of the processing error, fails:
  the second update of \<open>Collector_Collect\<close> stores the text of the wrapped error.
\<close>

theorem Collect_processing_failure_message_counterexample:
  "Snapshot_Collect env_process_fails snap1 = None
   \<and> Process env_process_fails snap1 = (None, Some (ErrorString ''bad profile''))
   \<and> map_option Message
        (ledger_after (Collector_Collect env_process_fails c_init target_ok) (ID snap1))
      = Some ''processor aborted: bad profile''
   \<and> map_option Message
        (ledger_after (Collector_Collect env_process_fails c_init target_ok) (ID snap1))
      \<noteq> Some (Error (ErrorString ''bad profile''))"
proof -
  have h: "mu_free c_init" "URL target_ok \<noteq> []" "Duration target_ok \<noteq> 0"
    "PrepareSnapshot env_process_fails (storage c_init) (typeLabel c_init) target_ok = snap1"
    "Snapshot_Collect env_process_fails snap1 = None"
    "Process env_process_fails snap1 = (None, Some (ErrorString ''bad profile''))"
    by (simp_all add: mu_free_def c_init_def target_ok_def env_process_fails_def env_ok_def
        snap1_def)
  show ?thesis
    using h(5,6) by (simp add: Collect_process_fail [OF h] ledger_after_def entry_of_def)
qed

text \<open>
  C4. A target with an empty endpoint or a zero duration: \<open>Collector_Collect\<close> returns the
  invalid-argument error and the collector is as it was, the trace included: no storage
  call, no ledger entry created or changed, no cell of the store written.
\<close>

theorem Collect_invalid_argument:
  assumes "URL target = [] \<or> Duration target = 0"
  shows "Collector_Collect env c target =
           Some (Some (ErrorString ''URL and Duration cannot be nil''), c)"
  using assms by (simp add: Collector_Collect_def)

theorem Collect_invalid_argument_witness:
  "(URL target_no_url = [] \<or> Duration target_no_url = 0)
   \<and> Collector_Collect env_ok c_init target_no_url =
       Some (Some (ErrorString ''URL and Duration cannot be nil''), c_init)
   \<and> (URL target_no_duration = [] \<or> Duration target_no_duration = 0)
   \<and> Collector_Collect env_ok c_ready target_no_duration =
       Some (Some (ErrorString ''URL and Duration cannot be nil''), c_ready)"
proof -
  have h: "URL target_no_url = [] \<or> Duration target_no_url = 0"
    and h': "URL target_no_duration = [] \<or> Duration target_no_duration = 0"
    by (simp_all add: target_no_url_def target_no_duration_def)
  from h h' Collect_invalid_argument [OF h, of env_ok c_init]
    Collect_invalid_argument [OF h', of env_ok c_ready]
  show ?thesis by blast
qed

text \<open>
  C5. A valid target, capture and processing both succeed, and storage hands out an
  identifier the ledger does not have yet: \<open>Collector_Collect\<close> returns no error; the
  ledger then has the entry of the allocated snapshot with the status \<open>StatusOk\<close> and the
  message \<^verbatim>\<open>Ready\<close>; this key is the one key added, and the entry of every other key is
  as before.
\<close>

theorem Collect_success:
  assumes "mu_free c" and "URL target \<noteq> []" and "Duration target \<noteq> 0"
    and "PrepareSnapshot env (storage c) (typeLabel c) target = snapshot"
    and "Snapshot_Collect env snapshot = None"
    and "Process env snapshot = (r, None)"
    and "allocated c" and "data c (ID snapshot) = None"
  shows "\<exists>c'. Collector_Collect env c target = Some (None, c')
           \<and> entry_of c' (ID snapshot) =
               Some \<lparr>Snapshot = snapshot, Status = StatusOk, Message = ''Ready''\<rparr>
           \<and> dom (data c') = insert (ID snapshot) (dom (data c))
           \<and> ID snapshot \<notin> dom (data c)
           \<and> (\<forall>k. k \<noteq> ID snapshot \<longrightarrow> entry_of c' k = entry_of c k)"
  using assms(8)
  by (simp add: Collect_ok [OF assms(1-6)] entry_of_other [OF assms(7)] domIff)
    (simp add: entry_of_def)

theorem Collect_success_witness:
  "mu_free c_init \<and> URL target_ok \<noteq> [] \<and> Duration target_ok \<noteq> 0
   \<and> PrepareSnapshot env_ok (storage c_init) (typeLabel c_init) target_ok = snap1
   \<and> Snapshot_Collect env_ok snap1 = None
   \<and> Process env_ok snap1 = (Some 7, None)
   \<and> allocated c_init \<and> data c_init (ID snap1) = None
   \<and> (\<exists>c'. Collector_Collect env_ok c_init target_ok = Some (None, c')
         \<and> entry_of c' (ID snap1) =
             Some \<lparr>Snapshot = snap1, Status = StatusOk, Message = ''Ready''\<rparr>
         \<and> dom (data c') = insert (ID snap1) (dom (data c_init))
         \<and> ID snap1 \<notin> dom (data c_init))"
proof -
  have h: "mu_free c_init" "URL target_ok \<noteq> []" "Duration target_ok \<noteq> 0"
    "PrepareSnapshot env_ok (storage c_init) (typeLabel c_init) target_ok = snap1"
    "Snapshot_Collect env_ok snap1 = None"
    "Process env_ok snap1 = (Some 7, None)"
    "allocated c_init" "data c_init (ID snap1) = None"
    by (simp_all add: mu_free_def allocated_def c_init_def target_ok_def env_ok_def snap1_def)
  from h Collect_success [OF h] show ?thesis by blast
qed

text \<open>
  C6. The capture fails with the error \<open>err\<close>: \<open>Collector_Collect\<close> returns the error that
  wraps \<open>err\<close> as the capture stage; the entry of the snapshot ends with the status
  \<open>StatusFail\<close> and the text of \<open>err\<close> as its message; no processing call is made.
\<close>

theorem Collect_capture_failure:
  assumes "mu_free c" and "URL target \<noteq> []" and "Duration target \<noteq> 0"
    and "PrepareSnapshot env (storage c) (typeLabel c) target = snapshot"
    and "Snapshot_Collect env snapshot = Some err"
  shows "\<exists>c'. Collector_Collect env c target = Some (Some (Errorf_w ''failed to collect: '' err), c')
           \<and> Error (Errorf_w ''failed to collect: '' err) = ''failed to collect: '' @ Error err
           \<and> entry_of c' (ID snapshot) =
               Some \<lparr>Snapshot = snapshot, Status = StatusFail, Message = Error err\<rparr>
           \<and> (\<forall>s. EProcess s \<notin> set (new_events c c'))"
  by (simp add: Collect_capture_fail [OF assms] entry_of_def new_events_def Errorf_w_def)

theorem Collect_capture_failure_witness:
  "mu_free c_init \<and> URL target_ok \<noteq> [] \<and> Duration target_ok \<noteq> 0
   \<and> PrepareSnapshot env_capture_fails (storage c_init) (typeLabel c_init) target_ok = snap1
   \<and> Snapshot_Collect env_capture_fails snap1 = Some (ErrorString ''connection refused'')
   \<and> (\<exists>c'. Collector_Collect env_capture_fails c_init target_ok =
           Some (Some (Errorf_w ''failed to collect: '' (ErrorString ''connection refused'')), c')
         \<and> Error (Errorf_w ''failed to collect: '' (ErrorString ''connection refused''))
             = ''failed to collect: '' @ Error (ErrorString ''connection refused'')
         \<and> entry_of c' (ID snap1) =
             Some \<lparr>Snapshot = snap1, Status = StatusFail,
                   Message = Error (ErrorString ''connection refused'')\<rparr>
         \<and> (\<forall>s. EProcess s \<notin> set (new_events c_init c')))"
proof -
  have h: "mu_free c_init" "URL target_ok \<noteq> []" "Duration target_ok \<noteq> 0"
    "PrepareSnapshot env_capture_fails (storage c_init) (typeLabel c_init) target_ok = snap1"
    "Snapshot_Collect env_capture_fails snap1 = Some (ErrorString ''connection refused'')"
    by (simp_all add: mu_free_def c_init_def target_ok_def env_capture_fails_def env_ok_def
        snap1_def)
  from h Collect_capture_failure [OF h] show ?thesis by blast
qed

text \<open>
  C7. \<open>Get\<close> of a key the ledger does not have returns an error and no reader, makes no
  processing call, and leaves the map, the store and the lock as they were.
\<close>

theorem Get_not_found:
  assumes "\<not> writer (mu c)" and "data c k = None"
  shows "\<exists>err c'. Get env c k = Some ((None, Some err), c')
           \<and> (\<forall>s. EProcess s \<notin> set (new_events c c'))
           \<and> new_events c c' = [ERLock, ERUnlock]
           \<and> data c' = data c \<and> heap c' = heap c \<and> next_addr c' = next_addr c
           \<and> mu c' = mu c"
  by (simp add: Get_absent [OF assms] new_events_def)

theorem Get_not_found_witness:
  "\<not> writer (mu c_ready) \<and> data c_ready ''s2'' = None
   \<and> (\<exists>err c'. Get env_ok c_ready ''s2'' = Some ((None, Some err), c')
         \<and> (\<forall>s. EProcess s \<notin> set (new_events c_ready c'))
         \<and> new_events c_ready c' = [ERLock, ERUnlock]
         \<and> data c' = data c_ready \<and> heap c' = heap c_ready
         \<and> next_addr c' = next_addr c_ready \<and> mu c' = mu c_ready)"
proof -
  have h: "\<not> writer (mu c_ready)" "data c_ready ''s2'' = None"
    by (simp_all add: c_ready_def)
  from h Get_not_found [OF h, of env_ok] show ?thesis by blast
qed

text \<open>
  C8. A sequence of calls of \<open>updateStatus\<close> on one identifier, from a free lock. If the
  entries of the ledger have statuses among the three declared constants and the calls pass
  such statuses, every entry of the ledger, and so every entry \<open>Collector_List\<close> returns,
  has one of the three statuses. No cell allocated before the sequence is written, so the
  entries behind pointers \<open>Collector_List\<close> returned before are as they were; each call
  allocates one cell, and the pointer of the identifier leads to a cell allocated during the
  sequence; the entry of the identifier, and its status, are those of the last call.
\<close>

theorem updateStatus_sequence:
  assumes "mu_free c" and "allocated c" and "us \<noteq> []"
    and "\<forall>u \<in> set us. ID (fst u) = i"
  shows "\<exists>c'. updates c us = Some c'
           \<and> (statuses_ok c \<and> (\<forall>u \<in> set us. fst (snd u) \<in> {StatusPending, StatusOk, StatusFail})
                \<longrightarrow> statuses_ok c'
                  \<and> (\<forall>ks. \<exists>ptrs c''. Collector_List c' ks = Some (ptrs, c'')
                        \<and> (\<forall>p \<in> set ptrs.
                              Status (heap c'' p) \<in> {StatusPending, StatusOk, StatusFail})))
           \<and> (\<forall>a < next_addr c. heap c' a = heap c a)
           \<and> (\<forall>ks ptrs c0. Collector_List c ks = Some (ptrs, c0)
                 \<longrightarrow> (\<forall>p \<in> set ptrs. heap c' p = heap c0 p))
           \<and> next_addr c' = next_addr c + length us
           \<and> (\<exists>a. data c' i = Some a \<and> next_addr c \<le> a \<and> a < next_addr c')
           \<and> entry_of c' i = Some (entry_of_call (last us))
           \<and> map_option Status (entry_of c' i) = Some (fst (snd (last us)))"
proof -
  from updates_sequence [OF assms(1,2,4)] assms(3)
  obtain c' where c': "updates c us = Some c'" "mu_free c'"
      "next_addr c' = next_addr c + length us"
      "\<forall>a < next_addr c. heap c' a = heap c a"
      "data c' i = Some (next_addr c + length us - 1)"
      "heap c' (next_addr c + length us - 1) = entry_of_call (last us)"
    by blast
  have len: "0 < length us"
    using assms(3) by simp
  have sts: "statuses_ok c'
      \<and> (\<forall>ks. \<exists>ptrs c''. Collector_List c' ks = Some (ptrs, c'')
            \<and> (\<forall>p \<in> set ptrs. Status (heap c'' p) \<in> {StatusPending, StatusOk, StatusFail}))"
    if "statuses_ok c"
      and "\<forall>u \<in> set us. fst (snd u) \<in> {StatusPending, StatusOk, StatusFail}"
  proof -
    have ok: "statuses_ok c'"
      using updates_statuses [OF assms(1,2) that c'(1)] .
    with List_statuses [OF c'(2)] show ?thesis by blast
  qed
  have seen: "\<forall>p \<in> set ptrs. heap c' p = heap c0 p"
    if "Collector_List c ks = Some (ptrs, c0)" for ks ptrs c0
  proof
    fix p assume "p \<in> set ptrs"
    with List_pointers [OF that] have "p \<in> ran (data c)" and h0: "heap c0 = heap c"
      by auto
    then have "p < next_addr c"
      using assms(2) by (auto simp: allocated_def ran_def)
    with c'(4) h0 show "heap c' p = heap c0 p" by simp
  qed
  have fresh: "\<exists>a. data c' i = Some a \<and> next_addr c \<le> a \<and> a < next_addr c'"
  proof -
    have "next_addr c \<le> next_addr c + length us - 1"
      and "next_addr c + length us - 1 < next_addr c + length us"
      using len by arith+
    with c'(3,5) show ?thesis by simp
  qed
  have ent: "entry_of c' i = Some (entry_of_call (last us))"
    using c'(5,6) by (simp add: entry_of_def)
  have st: "map_option Status (entry_of c' i) = Some (fst (snd (last us)))"
    using ent by (simp add: entry_of_call_def)
  show ?thesis
    using c'(1,3,4) sts seen fresh ent st by blast
qed

theorem updateStatus_sequence_witness:
  "mu_free c_ready \<and> allocated c_ready \<and> statuses_ok c_ready
   \<and> [(snap1, StatusPending, ''Processing''), (snap1, StatusFail, ''bad profile'')] \<noteq> []
   \<and> (\<exists>c'. updates c_ready [(snap1, StatusPending, ''Processing''),
                (snap1, StatusFail, ''bad profile'')] = Some c'
         \<and> statuses_ok c'
         \<and> heap c' 0 = heap c_ready 0
         \<and> next_addr c' = 3
         \<and> entry_of c' ''s1'' =
             Some \<lparr>Snapshot = snap1, Status = StatusFail, Message = ''bad profile''\<rparr>
         \<and> map_option Status (entry_of c' ''s1'') = Some StatusFail)"
proof -
  let ?us = "[(snap1, StatusPending, ''Processing''), (snap1, StatusFail, ''bad profile'')]"
  have h: "mu_free c_ready" "allocated c_ready" "?us \<noteq> []"
    "\<forall>u \<in> set ?us. ID (fst u) = ''s1''"
    by (simp_all add: mu_free_def allocated_def c_ready_def snap1_def)
  have s: "statuses_ok c_ready"
    "\<forall>u \<in> set ?us. fst (snd u) \<in> {StatusPending, StatusOk, StatusFail}"
    by (simp_all add: statuses_ok_def c_ready_def)
  have n: "next_addr c_ready = 1"
    by (simp add: c_ready_def)
  from updateStatus_sequence [OF h] s n have
    "\<exists>c'. updates c_ready ?us = Some c'
         \<and> statuses_ok c'
         \<and> heap c' 0 = heap c_ready 0
         \<and> next_addr c' = 3
         \<and> entry_of c' ''s1'' =
             Some \<lparr>Snapshot = snap1, Status = StatusFail, Message = ''bad profile''\<rparr>
         \<and> map_option Status (entry_of c' ''s1'') = Some StatusFail"
    by (auto simp: entry_of_call_def)
  with h(1-3) s(1) show ?thesis by blast
qed

text \<open>
  C9. \<open>New\<close> returns an error, and no collector, exactly when storage cannot be opened or
  the snapshots cannot be listed. Otherwise it returns a collector whose trace is one
  goroutine running \<open>runProcessor\<close> for each listed snapshot and nothing else: no status
  has been written and no processing call made when \<open>New\<close> returns.
\<close>

theorem New_initialization:
  "((\<exists>err. New env opts = Inl err) \<longleftrightarrow>
      (\<exists>err. newStorage env (WorkDir opts) (FileName opts) = Inl err)
      \<or> (\<exists>store err. newStorage env (WorkDir opts) (FileName opts) = Inr store
            \<and> Storage_List env store = Inl err))
   \<and> (\<forall>store snapshots.
        newStorage env (WorkDir opts) (FileName opts) = Inr store
        \<and> Storage_List env store = Inr snapshots \<longrightarrow>
        (\<exists>c. New env opts = Inr c
           \<and> trace c = map (\<lambda>s. EGo (RunProcessor s)) snapshots
           \<and> length (trace c) = length snapshots
           \<and> data c = Map.empty \<and> next_addr c = 0 \<and> mu_free c
           \<and> typeLabel c = Type opts \<and> storage c = store))"
  by (auto simp: New_def go_runProcessor_eq mu_free_def Let_def split: sum.splits)

theorem New_initialization_witness:
  "newStorage env_ok (WorkDir opts0) (FileName opts0) = Inr ()
   \<and> Storage_List env_ok () = Inr [snap0, snap1]
   \<and> (\<exists>c. New env_ok opts0 = Inr c
         \<and> trace c = [EGo (RunProcessor snap0), EGo (RunProcessor snap1)]
         \<and> data c = Map.empty \<and> next_addr c = 0 \<and> mu_free c)
   \<and> Storage_List env_list_fails () = Inl (ErrorString ''permission denied'')
   \<and> (\<exists>err. New env_list_fails opts0 = Inl err)"
proof -
  have h: "newStorage env_ok (WorkDir opts0) (FileName opts0) = Inr ()"
    "Storage_List env_ok () = Inr [snap0, snap1]"
    "newStorage env_list_fails (WorkDir opts0) (FileName opts0) = Inr ()"
    "Storage_List env_list_fails () = Inl (ErrorString ''permission denied'')"
    by (simp_all add: env_ok_def env_list_fails_def)
  from h(1,2) New_initialization [of env_ok opts0] have
    "\<exists>c. New env_ok opts0 = Inr c
         \<and> trace c = [EGo (RunProcessor snap0), EGo (RunProcessor snap1)]
         \<and> data c = Map.empty \<and> next_addr c = 0 \<and> mu_free c"
    by auto
  moreover from h(3,4) New_initialization [of env_list_fails opts0] have
    "\<exists>err. New env_list_fails opts0 = Inl err"
    by blast
  ultimately show ?thesis using h by blast
qed

text \<open>
  C10, as amended. For a key the ledger does not have, the text of the error of \<open>Get\<close> is
  \<^verbatim>\<open>no such entry: <nil>\<close> whatever the key: the nil entry is formatted, not the key. The
  text holds the key only when the key is a part of this fixed text.
\<close>

theorem Get_not_found_message:
  assumes "\<not> writer (mu c)" and "data c k = None"
  shows "map_option Error (returned_error (Get env c k)) = Some ''no such entry: <nil>''
         \<and> (\<forall>t. map_option Error (returned_error (Get env c k)) = Some t \<longrightarrow>
               (sublist k t \<longleftrightarrow> sublist k ''no such entry: <nil>''))"
  by (simp add: Get_absent [OF assms] returned_error_def)

theorem Get_not_found_message_witness:
  "\<not> writer (mu c_ready) \<and> data c_ready ''s2'' = None
   \<and> map_option Error (returned_error (Get env_ok c_ready ''s2'')) = Some ''no such entry: <nil>''"
proof -
  have h: "\<not> writer (mu c_ready)" "data c_ready ''s2'' = None"
    by (simp_all add: c_ready_def)
  from h Get_not_found_message [OF h, of env_ok] show ?thesis by blast
qed

text \<open>
  C10 as stated, with the message never containing the requested key, fails for the key
  \<^verbatim>\<open>nil\<close>.
\<close>

theorem Get_not_found_message_counterexample:
  "data c_ready ''nil'' = None
   \<and> map_option (sublist ''nil'' \<circ> Error) (returned_error (Get env_ok c_ready ''nil''))
       = Some True"
proof -
  have h: "\<not> writer (mu c_ready)" "data c_ready ''nil'' = None"
    by (simp_all add: c_ready_def)
  have "''no such entry: <nil>'' = ''no such entry: <'' @ ''nil'' @ ''>''"
    by simp
  then have "sublist ''nil'' ''no such entry: <nil>''"
    unfolding sublist_def by blast
  then show ?thesis
    using h(2) by (simp add: Get_absent [OF h] returned_error_def)
qed

end
